theory Spec2Isabelle
  imports Main "HOL-Library.Sublist"
begin

section \<open>Python values used by Code.py\<close>

text \<open>
  A Python \<open>str\<close> is modelled as a \<open>string\<close> whose characters stand for the code points
  below 256. \<open>lower\<close>, \<open>strip\<close> and the \<open>in\<close> operator act on that range as Python's
  \<open>str.lower\<close>, \<open>str.strip\<close> and substring test do.
\<close>

definition lower_char :: "char \<Rightarrow> char" where
  "lower_char c =
     (let n = (of_char c :: nat) in
      if (65 \<le> n \<and> n \<le> 90) \<or> (192 \<le> n \<and> n \<le> 222 \<and> n \<noteq> 215)
      then char_of (n + 32) else c)"

definition lower :: "string \<Rightarrow> string" where
  "lower s = map lower_char s"

definition is_space :: "char \<Rightarrow> bool" where
  "is_space c =
     (let n = (of_char c :: nat) in
      (9 \<le> n \<and> n \<le> 13) \<or> (28 \<le> n \<and> n \<le> 32) \<or> n = 133 \<or> n = 160)"

definition strip :: "string \<Rightarrow> string" where
  "strip s = rev (dropWhile is_space (rev (dropWhile is_space s)))"

fun startswith :: "string \<Rightarrow> string \<Rightarrow> bool" where
  "startswith s [] = True"
| "startswith [] (c # w) = False"
| "startswith (a # s) (c # w) = (a = c \<and> startswith s w)"

text \<open>\<open>str_in w s\<close> is Python's \<open>w in s\<close> on strings.\<close>

fun str_in :: "string \<Rightarrow> string \<Rightarrow> bool" where
  "str_in w [] = (w = [])"
| "str_in w (a # s) = (startswith (a # s) w \<or> str_in w s)"

text \<open>
  Every exception raised by the collaborators is an instance of Python's \<open>Exception\<close>,
  so each \<open>except Exception\<close> clause of the program catches it. Signals outside that
  class (an interrupt, an interpreter exit) end the process from outside and are not part
  of the model.
\<close>

datatype exn =
    EnvironmentError string
  | MailboxError string
  | SMTPError string
  | ModelError string
  | MessageError string

fun str_of :: "exn \<Rightarrow> string" where
  "str_of (EnvironmentError s) = s"
| "str_of (MailboxError s) = s"
| "str_of (SMTPError s) = s"
| "str_of (ModelError s) = s"
| "str_of (MessageError s) = s"

datatype level = INFO | ERROR

section \<open>The world the tools act on\<close>

text \<open>
  A message of the remote mailbox, with the attributes the program reads (\<open>uid\<close>,
  \<open>from_\<close>, \<open>subject\<close>, \<open>text\<close>) and its Seen flag.
\<close>

record message =
  msg_uid :: string
  msg_from :: string
  msg_subject :: string
  msg_text :: string
  msg_seen :: bool

text \<open>
  The content types built by \<open>MIMEText(body, subtype, charset)\<close> and \<open>MIMEMultipart()\<close>:
  a text leaf, or a container of parts with its subtype.
\<close>

datatype mime = Mime (headers: "(string \<times> string) list") (content: mime_content)
and mime_content =
    Text string string string
  | Multipart string "mime list"

text \<open>
  The state outside the process: the mailbox, what the outbound server accepted (sender,
  recipient and the serialised message), the log stream, and the failures the environment
  will produce. A fault is the exception the
  corresponding library call raises; \<open>imap_fetch_fault i\<close> is raised by the generator of
  \<open>mailbox.fetch\<close> instead of yielding its \<open>i\<close>-th item (or instead of finishing, when
  \<open>i\<close> is the number of items), \<open>imap_flag_fault i\<close> by \<open>mailbox.flag\<close> for the
  \<open>i\<close>-th item.
\<close>

record world =
  inbox :: "message list"
  imap_login_fault :: "exn option"
  imap_fetch_fault :: "nat \<Rightarrow> exn option"
  imap_flag_fault :: "nat \<Rightarrow> exn option"
  imap_logout_fault :: "exn option"
  smtp_connect_fault :: "exn option"
  smtp_login_fault :: "exn option"
  smtp_sendmail_fault :: "exn option"
  smtp_quit_fault :: "exn option"
  outbox :: "(string \<times> string \<times> string) list"
  log :: "(level \<times> string) list"

definition logging_error :: "string \<Rightarrow> world \<Rightarrow> world" where
  "logging_error s w = w\<lparr>log := log w @ [(ERROR, s)]\<rparr>"

definition logging_info :: "string \<Rightarrow> world \<Rightarrow> world" where
  "logging_info s w = w\<lparr>log := log w @ [(INFO, s)]\<rparr>"

section \<open>fetch_support_emails\<close>

definition support_keywords :: "string list" where
  "support_keywords = [''help'', ''issue'', ''problem'']"

text \<open>\<open>content = msg.text or msg.subject\<close>\<close>

definition content_of :: "message \<Rightarrow> string" where
  "content_of m = (if msg_text m \<noteq> [] then msg_text m else msg_subject m)"

text \<open>\<open>any(word in content.lower() for word in ["help", "issue", "problem"])\<close>\<close>

definition is_support :: "message \<Rightarrow> bool" where
  "is_support m = list_ex (\<lambda>word. str_in word (lower (content_of m))) support_keywords"

text \<open>The dictionary appended to \<open>emails_to_reply\<close>.\<close>

definition to_dict :: "message \<Rightarrow> (string \<rightharpoonup> string)" where
  "to_dict m =
     [''from'' \<mapsto> msg_from m, ''subject'' \<mapsto> msg_subject m, ''body'' \<mapsto> content_of m]"

text \<open>\<open>mailbox.flag(uid, "\\Seen", True)\<close> on the remote mailbox.\<close>

definition flag_seen :: "string \<Rightarrow> message list \<Rightarrow> message list" where
  "flag_seen u ms = map (\<lambda>m. if msg_uid m = u then m\<lparr>msg_seen := True\<rparr> else m) ms"

text \<open>\<open>mailbox.fetch(AND(seen=False))\<close>: the unread messages, in mailbox order.\<close>

definition unread :: "world \<Rightarrow> message list" where
  "unread w = filter (\<lambda>m. \<not> msg_seen m) (inbox w)"

text \<open>
  The \<open>for\<close> loop of lines 62 to 73, from the \<open>i\<close>-th item on. The state is the world,
  \<open>count\<close> and \<open>emails_to_reply\<close>; the first component of the result is the exception
  that left the loop, if any. Line 62 calls \<open>mailbox.fetch\<close> without \<open>mark_seen\<close>, whose
  default is \<open>True\<close>: the server sets the Seen flag of every message the generator fetches,
  whether it matches or not, before the loop body runs on it.
\<close>

fun fetch_loop ::
  "int \<Rightarrow> nat \<Rightarrow> message list \<Rightarrow> world \<Rightarrow> int \<Rightarrow> (string \<rightharpoonup> string) list
     \<Rightarrow> exn option \<times> world \<times> (string \<rightharpoonup> string) list" where
  "fetch_loop limit i [] w count emails =
     (case imap_fetch_fault w i of
        Some e \<Rightarrow> (Some e, w, emails)
      | None \<Rightarrow> (None, w, emails))"
| "fetch_loop limit i (m # ms) w count emails =
     (case imap_fetch_fault w i of
        Some e \<Rightarrow> (Some e, w, emails)
      | None \<Rightarrow>
          let w1 = w\<lparr>inbox := flag_seen (msg_uid m) (inbox w)\<rparr> in
          if is_support m then
            (case imap_flag_fault w1 i of
               Some e \<Rightarrow> (Some e, w1, emails)
             | None \<Rightarrow>
                 let w' = w1\<lparr>inbox := flag_seen (msg_uid m) (inbox w1)\<rparr>;
                     emails' = emails @ [to_dict m];
                     count' = count + 1
                 in if count' \<ge> limit then (None, w', emails')
                    else fetch_loop limit (Suc i) ms w' count' emails')
          else fetch_loop limit (Suc i) ms w1 count emails)"

text \<open>
  The \<open>with MailBox(...).login(...) as mailbox:\<close> block: a failed login raises before the
  block is entered; leaving the block, normally or by an exception, logs out, and an
  exception of the logout is the one that propagates.
\<close>

definition fetch_body ::
  "int \<Rightarrow> world \<Rightarrow> exn option \<times> world \<times> (string \<rightharpoonup> string) list" where
  "fetch_body limit w =
     (case imap_login_fault w of
        Some e \<Rightarrow> (Some e, w, [])
      | None \<Rightarrow>
          (case fetch_loop limit 0 (unread w) w 0 [] of
             (r, w', emails) \<Rightarrow>
               (case imap_logout_fault w' of
                  Some e \<Rightarrow> (Some e, w', emails)
                | None \<Rightarrow> (r, w', emails))))"

text \<open>
  The tool itself: the \<open>try\<close> block, the handler that logs, and the \<open>return\<close>. The
  result is \<open>Inl e\<close> when the call raises \<open>e\<close> to its caller.
\<close>

definition fetch_support_emails ::
  "int \<Rightarrow> world \<Rightarrow> (exn + (string \<rightharpoonup> string) list) \<times> world" where
  "fetch_support_emails limit w =
     (case fetch_body limit w of
        (Some e, w', emails) \<Rightarrow>
          (Inr emails, logging_error (''Error fetching emails: '' @ str_of e) w')
      | (None, w', emails) \<Rightarrow> (Inr emails, w'))"

section \<open>generate_email_reply\<close>

text \<open>
  \<open>inference_model.generate\<close> is the model endpoint: given the prompt it returns a text
  response or raises. It is a parameter of the tool.
\<close>

definition make_prompt :: "string \<Rightarrow> string" where
  "make_prompt email_body =
     ''You are a helpful support assistant. Respond politely and helpfully to the email:''
       @ [CHR 0x0A, CHR 0x0A] @ email_body"

definition generate_email_reply ::
  "(string \<Rightarrow> exn + string) \<Rightarrow> string \<Rightarrow> world \<Rightarrow> (exn + string) \<times> world" where
  "generate_email_reply generate email_body w =
     (let prompt = make_prompt email_body in
      case generate prompt of
        Inr response \<Rightarrow> (Inr (strip response), w)
      | Inl e \<Rightarrow>
          (Inr ''Thank you for reaching out. We have received your email and will get back to you soon.'',
           logging_error (''Error generating AI reply: '' @ str_of e) w))"

section \<open>send_email_tool\<close>

text \<open>
  The constructors and methods of \<open>email.mime\<close> the tool calls. \<open>MIMEMultipart()\<close> is an
  empty container of subtype \<open>mixed\<close>; \<open>msg[name] = value\<close> appends a header;
  \<open>attach\<close> appends a part to a container and raises on a text leaf.
\<close>

definition MIMEMultipart :: mime where
  "MIMEMultipart = Mime [] (Multipart ''mixed'' [])"

definition MIMEText :: "string \<Rightarrow> string \<Rightarrow> string \<Rightarrow> mime" where
  "MIMEText body subtype charset = Mime [] (Text body subtype charset)"

definition set_header :: "string \<Rightarrow> string \<Rightarrow> mime \<Rightarrow> mime" where
  "set_header name val m = Mime (headers m @ [(name, val)]) (content m)"

fun attach :: "mime \<Rightarrow> mime \<Rightarrow> exn + mime" where
  "attach part (Mime hs (Multipart st ps)) = Inr (Mime hs (Multipart st (ps @ [part])))"
| "attach part (Mime hs (Text b st cs)) =
     Inl (MessageError ''Cannot attach additional subparts to non-multipart/*'')"

text \<open>\<open>msg[name]\<close>: the value of the first header of that name.\<close>

definition get_header :: "string \<Rightarrow> mime \<Rightarrow> string option" where
  "get_header name m = map_of (headers m) name"

text \<open>Lines 111 to 115, with \<open>EMAIL_USER\<close> as a parameter.\<close>

definition build_message :: "string \<Rightarrow> string \<Rightarrow> string \<Rightarrow> string \<Rightarrow> exn + mime" where
  "build_message email_user recipient subject body =
     (let msg = MIMEMultipart;
          msg = set_header ''From'' email_user msg;
          msg = set_header ''To'' recipient msg;
          msg = set_header ''Subject'' subject msg
      in attach (MIMEText body ''plain'' ''utf-8'') msg)"

text \<open>
  The \<open>try\<close> block of lines 110 to 120. \<open>msg.as_string()\<close> is a parameter: it gives the
  text of a message or raises, as it does for a header value that holds a further header
  line; it is evaluated on line 119, after the login. \<open>MIMEText(body, 'plain', 'utf-8')\<close>
  encodes every string of the model. An accepted \<open>sendmail\<close> puts the envelope and the
  text into the outbox. Leaving the \<open>with\<close> block sends \<open>QUIT\<close>, whose exception, if any,
  is the one that propagates.
\<close>

definition send_body ::
  "(mime \<Rightarrow> exn + string) \<Rightarrow> string \<Rightarrow> string \<Rightarrow> string \<Rightarrow> string \<Rightarrow> world
     \<Rightarrow> exn option \<times> world" where
  "send_body as_string email_user recipient subject body w =
     (case build_message email_user recipient subject body of
        Inl e \<Rightarrow> (Some e, w)
      | Inr msg \<Rightarrow>
          (case smtp_connect_fault w of
             Some e \<Rightarrow> (Some e, w)
           | None \<Rightarrow>
               (case (case smtp_login_fault w of
                        Some e \<Rightarrow> (Some e, w)
                      | None \<Rightarrow>
                          (case as_string msg of
                             Inl e \<Rightarrow> (Some e, w)
                           | Inr data \<Rightarrow>
                               (case smtp_sendmail_fault w of
                                  Some e \<Rightarrow> (Some e, w)
                                | None \<Rightarrow>
                                    (None,
                                     logging_info (''Email sent to '' @ recipient)
                                       (w\<lparr>outbox := outbox w @ [(email_user, recipient, data)]\<rparr>)))))
                of (r, w') \<Rightarrow>
                  (case smtp_quit_fault w' of
                     Some e \<Rightarrow> (Some e, w')
                   | None \<Rightarrow> (r, w')))))"

definition send_email_tool ::
  "(mime \<Rightarrow> exn + string) \<Rightarrow> string \<Rightarrow> string \<Rightarrow> string \<Rightarrow> string \<Rightarrow> world
     \<Rightarrow> (exn + unit) \<times> world" where
  "send_email_tool as_string email_user recipient subject body w =
     (case send_body as_string email_user recipient subject body w of
        (Some e, w') \<Rightarrow> (Inr (), logging_error (''Error sending email: '' @ str_of e) w')
      | (None, w') \<Rightarrow> (Inr (), w'))"

text \<open>A message is single-part when it is not a multipart container.\<close>

definition is_single_part :: "mime \<Rightarrow> bool" where
  "is_single_part m = (case content m of Text b st cs \<Rightarrow> True | Multipart st ps \<Rightarrow> False)"

section \<open>Configuration at import time\<close>

text \<open>\<open>os.environ\<close> is a map from names to values; \<open>os.getenv\<close> is its lookup.\<close>

text \<open>Lines 21 to 25: the assignments to \<open>os.environ\<close>.\<close>

definition set_environ :: "(string \<rightharpoonup> string) \<Rightarrow> (string \<rightharpoonup> string)" where
  "set_environ env =
     env(''EMAIL_USER'' \<mapsto> ''YOUR_MAIL'',
         ''EMAIL_PASS'' \<mapsto> ''EMAIL_PASSS'',
         ''MODEL_API_KEY'' \<mapsto> ''ENTER-API -KEY'',
         ''MODEL_API_BASE'' \<mapsto> ''API-BASE'',
         ''MODEL_NAME'' \<mapsto> ''LLM-MODEL'')"

record settings =
  EMAIL_USER :: "string option"
  EMAIL_PASS :: "string option"
  MODEL_API_KEY :: "string option"
  API_KEY :: "string option"
  TOGETHER_API_KEY :: "string option"
  MODEL_API_BASE :: "string option"
  MODEL_NAME :: "string option"

text \<open>Lines 27 to 33.\<close>

definition load_settings :: "(string \<rightharpoonup> string) \<Rightarrow> settings" where
  "load_settings env =
     \<lparr>EMAIL_USER = env ''EMAIL_USER'',
      EMAIL_PASS = env ''EMAIL_PASS'',
      MODEL_API_KEY = env ''MODEL_API_KEY'',
      API_KEY = env ''API_KEY'',
      TOGETHER_API_KEY = env ''TOGETHER_API_KEY'',
      MODEL_API_BASE = env ''MODEL_API_BASE'',
      MODEL_NAME = env ''MODEL_NAME''\<rparr>"

text \<open>Python's truth value of \<open>None\<close> or a string.\<close>

definition truthy :: "string option \<Rightarrow> bool" where
  "truthy v = (case v of None \<Rightarrow> False | Some s \<Rightarrow> s \<noteq> [])"

text \<open>Lines 37 to 40.\<close>

definition check_settings :: "settings \<Rightarrow> exn + settings" where
  "check_settings c =
     (if \<not> (truthy (EMAIL_USER c) \<and> truthy (EMAIL_PASS c) \<and>
             (truthy (MODEL_API_KEY c) \<or> truthy (API_KEY c) \<or> truthy (TOGETHER_API_KEY c)) \<and>
             truthy (MODEL_API_BASE c) \<and> truthy (MODEL_NAME c))
      then Inl (EnvironmentError
        ''Please set EMAIL_USER, EMAIL_PASS, API key, MODEL_API_BASE, and MODEL_NAME in environment variables.'')
      else Inr c)"

text \<open>The module's top level up to line 40, on the environment the process starts with.\<close>

definition startup :: "(string \<rightharpoonup> string) \<Rightarrow> exn + settings" where
  "startup env = check_settings (load_settings (set_environ env))"

section \<open>The poll loop\<close>







section \<open>Auxiliary notions for the statements\<close>

text \<open>The mailbox after the messages with the given uids were flagged.\<close>

definition flag_all :: "string list \<Rightarrow> message list \<Rightarrow> message list" where
  "flag_all us ms = map (\<lambda>m. if msg_uid m \<in> set us then m\<lparr>msg_seen := True\<rparr> else m) ms"

text \<open>The support messages among the first \<open>j\<close> items of the stream.\<close>

definition processed :: "nat \<Rightarrow> message list \<Rightarrow> message list" where
  "processed j ms = filter is_support (take j ms)"

section \<open>Example states\<close>

definition example_inbox :: "message list" where
  "example_inbox =
     [\<lparr>msg_uid = ''1'', msg_from = ''ann@example.org'', msg_subject = ''Login'',
       msg_text = ''Please HELP me'', msg_seen = False\<rparr>,
      \<lparr>msg_uid = ''2'', msg_from = ''bob@example.org'', msg_subject = ''Lunch'',
       msg_text = ''See you at noon'', msg_seen = False\<rparr>,
      \<lparr>msg_uid = ''3'', msg_from = ''cy@example.org'', msg_subject = ''An issue with billing'',
       msg_text = [], msg_seen = False\<rparr>,
      \<lparr>msg_uid = ''4'', msg_from = ''di@example.org'', msg_subject = ''Old problem'',
       msg_text = ''It was a problem'', msg_seen = True\<rparr>]"

text \<open>A world in which no library call fails.\<close>

definition example_world :: world where
  "example_world =
     \<lparr>inbox = example_inbox,
      imap_login_fault = None,
      imap_fetch_fault = (\<lambda>i. None),
      imap_flag_fault = (\<lambda>i. None),
      imap_logout_fault = None,
      smtp_connect_fault = None,
      smtp_login_fault = None,
      smtp_sendmail_fault = None,
      smtp_quit_fault = None,
      outbox = [],
      log = []\<rparr>"


text \<open>The example world without its first message: the first unread message does not match.\<close>

definition later_world :: world where
  "later_world = example_world\<lparr>inbox := tl example_inbox\<rparr>"

text \<open>The example world with an outbound server that rejects the login.\<close>

definition rejecting_world :: world where
  "rejecting_world =
     example_world\<lparr>smtp_login_fault := Some (SMTPError ''535 authentication failed'')\<rparr>"

text \<open>
  A serialiser for the examples: it refuses a header value that holds a line break and
  renders the header lines of any other message.
\<close>

definition example_as_string :: "mime \<Rightarrow> exn + string" where
  "example_as_string m =
     (if list_ex (\<lambda>h. CHR 0x0A \<in> set (snd h)) (headers m)
      then Inl (MessageError ''header value appears to contain an embedded header'')
      else Inr (concat (map (\<lambda>h. fst h @ '': '' @ snd h @ [CHR 0x0A]) (headers m))))"

section \<open>Properties of the fetch loop\<close>

lemma startswith_iff: "startswith s w \<longleftrightarrow> prefix w s"
  by (induction s w rule: startswith.induct) auto

lemma str_in_iff: "str_in w s \<longleftrightarrow> (\<exists>ps ss. s = ps @ w @ ss)"
proof -
  have "str_in w s \<longleftrightarrow> sublist w s"
  proof (induction s)
    case Nil
    then show ?case by simp
  next
    case (Cons a s)
    then show ?case by (cases w) (auto simp: startswith_iff sublist_code(3))
  qed
  then show ?thesis by (simp add: sublist_def)
qed

lemma flag_all_Nil: "flag_all [] ms = ms"
  by (simp add: flag_all_def)

lemma flag_all_Cons: "flag_all (u # us) ms = flag_all us (flag_seen u ms)"
  by (auto simp: flag_all_def flag_seen_def)

lemma processed_0: "processed 0 ms = []"
  by (simp add: processed_def)

lemma processed_Suc:
  "processed (Suc j) (m # ms) = (if is_support m then m # processed j ms else processed j ms)"
  by (simp add: processed_def)

lemma flag_seen_idem: "flag_seen u (flag_seen u ms) = flag_seen u ms"
  by (simp add: flag_seen_def)

lemma fetch_loop_inbox:
  "fetch_loop limit i ms w count emails = (r, w', out) \<Longrightarrow>
   \<exists>n\<le>length ms. w' = w\<lparr>inbox := flag_all (map msg_uid (take n ms)) (inbox w)\<rparr>"
    (is "_ \<Longrightarrow> \<exists>n. ?Q ms w n")
proof (induction ms arbitrary: i w count emails)
  case Nil
  then have "w' = w" by (simp split: option.splits)
  then have "?Q [] w 0" by (simp add: flag_all_Nil)
  then show ?case by (rule exI[of "?Q [] w" 0])
next
  case (Cons m ms)
  let ?w1 = "w\<lparr>inbox := flag_seen (msg_uid m) (inbox w)\<rparr>"
  have one: "?Q (m # ms) w (Suc 0)" if "w' = ?w1"
    using that by (simp add: flag_all_Cons flag_all_Nil)
  have step: "\<exists>n. ?Q (m # ms) w n" if rec: "fetch_loop limit (Suc i) ms ?w1 c1 e1 = (r, w', out)"
    for c1 e1
  proof -
    from Cons.IH[OF rec] obtain n where n: "n \<le> length ms"
      "w' = ?w1\<lparr>inbox := flag_all (map msg_uid (take n ms)) (inbox ?w1)\<rparr>"
      by (elim exE conjE)
    have "?Q (m # ms) w (Suc n)" using n by (simp add: flag_all_Cons)
    then show ?thesis by (rule exI[of "?Q (m # ms) w" "Suc n"])
  qed
  show ?case
  proof (cases "imap_fetch_fault w i")
    case (Some e)
    with Cons.prems have "w' = w" by simp
    then have "?Q (m # ms) w 0" by (simp add: flag_all_Nil)
    then show ?thesis by (rule exI[of "?Q (m # ms) w" 0])
  next
    case None
    note nf = None
    show ?thesis
    proof (cases "is_support m")
      case False
      with nf Cons.prems have "fetch_loop limit (Suc i) ms ?w1 count emails = (r, w', out)"
        by (simp add: Let_def)
      then show ?thesis by (rule step)
    next
      case True
      note sup = True
      show ?thesis
      proof (cases "imap_flag_fault w i")
        case (Some e)
        with nf sup Cons.prems have "w' = ?w1" by (simp add: Let_def)
        then have "?Q (m # ms) w (Suc 0)" by (rule one)
        then show ?thesis by (rule exI[of "?Q (m # ms) w" "Suc 0"])
      next
        case None
        note nfl = None
        show ?thesis
        proof (cases "count + 1 \<ge> limit")
          case True
          with nf sup nfl Cons.prems have "w' = ?w1" by (simp add: Let_def flag_seen_idem)
          then have "?Q (m # ms) w (Suc 0)" by (rule one)
          then show ?thesis by (rule exI[of "?Q (m # ms) w" "Suc 0"])
        next
          case False
          with nf sup nfl Cons.prems have
            "fetch_loop limit (Suc i) ms ?w1 (count + 1) (emails @ [to_dict m]) = (r, w', out)"
            by (simp add: Let_def flag_seen_idem)
          then show ?thesis by (rule step)
        qed
      qed
    qed
  qed
qed

lemma fetch_loop_world:
  assumes "fetch_loop limit i ms w count emails = (r, w', out)"
  shows "w' = w\<lparr>inbox := inbox w'\<rparr>"
proof -
  from fetch_loop_inbox[OF assms] obtain n where
    "w' = w\<lparr>inbox := flag_all (map msg_uid (take n ms)) (inbox w)\<rparr>"
    by (elim exE conjE)
  then show ?thesis by simp
qed

lemma fetch_loop_char:
  "fetch_loop limit i ms w count emails = (r, w', out) \<Longrightarrow>
   \<exists>j\<le>length ms.
      out = emails @ map to_dict (processed j ms) \<and>
      (\<forall>k<j. imap_fetch_fault w (i + k) = None) \<and>
      (\<forall>k<j. is_support (ms ! k) \<longrightarrow> imap_flag_fault w (i + k) = None) \<and>
      (case r of
         Some e \<Rightarrow> imap_fetch_fault w (i + j) = Some e \<or>
                   (imap_fetch_fault w (i + j) = None \<and> j < length ms \<and> is_support (ms ! j) \<and>
                    imap_flag_fault w (i + j) = Some e)
       | None \<Rightarrow> (j = length ms \<and> imap_fetch_fault w (i + j) = None) \<or>
                 (0 < j \<and> is_support (ms ! (j - 1)) \<and> count + int (length (processed j ms)) \<ge> limit))"
proof (induction ms arbitrary: i w count emails)
  case Nil
  then show ?case by (auto simp: processed_0 split: option.splits)
next
  case (Cons m ms)
  let ?w1 = "w\<lparr>inbox := flag_seen (msg_uid m) (inbox w)\<rparr>"
  let ?P = "\<lambda>j. j \<le> length (m # ms) \<and>
      out = emails @ map to_dict (processed j (m # ms)) \<and>
      (\<forall>k<j. imap_fetch_fault w (i + k) = None) \<and>
      (\<forall>k<j. is_support ((m # ms) ! k) \<longrightarrow> imap_flag_fault w (i + k) = None) \<and>
      (case r of
         Some e \<Rightarrow> imap_fetch_fault w (i + j) = Some e \<or>
                   (imap_fetch_fault w (i + j) = None \<and> j < length (m # ms) \<and> is_support ((m # ms) ! j) \<and>
                    imap_flag_fault w (i + j) = Some e)
       | None \<Rightarrow> (j = length (m # ms) \<and> imap_fetch_fault w (i + j) = None) \<or>
                 (0 < j \<and> is_support ((m # ms) ! (j - 1)) \<and> count + int (length (processed j (m # ms))) \<ge> limit))"
  have step: "\<exists>j. ?P j" if
    rec: "fetch_loop limit (Suc i) ms ?w1 c1 e1 = (r, w', out)" and
    nf: "imap_fetch_fault w i = None" and
    fl: "is_support m \<Longrightarrow> imap_flag_fault w i = None" and
    c1: "c1 = (if is_support m then count + 1 else count)" and
    e1: "e1 = (if is_support m then emails @ [to_dict m] else emails)"
    for c1 e1
  proof -
    from Cons.IH[OF rec] obtain j where j: "j \<le> length ms"
      "out = e1 @ map to_dict (processed j ms)"
      "\<forall>k<j. imap_fetch_fault ?w1 (Suc i + k) = None"
      "\<forall>k<j. is_support (ms ! k) \<longrightarrow> imap_flag_fault ?w1 (Suc i + k) = None"
      "(case r of
         Some e \<Rightarrow> imap_fetch_fault ?w1 (Suc i + j) = Some e \<or>
                   (imap_fetch_fault ?w1 (Suc i + j) = None \<and> j < length ms \<and> is_support (ms ! j) \<and>
                    imap_flag_fault ?w1 (Suc i + j) = Some e)
       | None \<Rightarrow> (j = length ms \<and> imap_fetch_fault ?w1 (Suc i + j) = None) \<or>
                 (0 < j \<and> is_support (ms ! (j - 1)) \<and> c1 + int (length (processed j ms)) \<ge> limit))"
      by blast
    have ff: "imap_fetch_fault ?w1 = imap_fetch_fault w" "imap_flag_fault ?w1 = imap_flag_fault w"
      by simp_all
    have "?P (Suc j)"
    proof (intro conjI)
      show "Suc j \<le> length (m # ms)" using j(1) by simp
      show "out = emails @ map to_dict (processed (Suc j) (m # ms))"
        using j(2) by (simp add: e1 processed_Suc)
      show "\<forall>k<Suc j. imap_fetch_fault w (i + k) = None"
        using j(3) nf by (auto simp: less_Suc_eq_0_disj)
      show "\<forall>k<Suc j. is_support ((m # ms) ! k) \<longrightarrow> imap_flag_fault w (i + k) = None"
        using j(4) fl by (auto simp: less_Suc_eq_0_disj)
      show "(case r of
         Some e \<Rightarrow> imap_fetch_fault w (i + Suc j) = Some e \<or>
                   (imap_fetch_fault w (i + Suc j) = None \<and> Suc j < length (m # ms) \<and> is_support ((m # ms) ! Suc j) \<and>
                    imap_flag_fault w (i + Suc j) = Some e)
       | None \<Rightarrow> (Suc j = length (m # ms) \<and> imap_fetch_fault w (i + Suc j) = None) \<or>
                 (0 < Suc j \<and> is_support ((m # ms) ! (Suc j - 1)) \<and> count + int (length (processed (Suc j) (m # ms))) \<ge> limit))"
        using j(5)
        apply (cases r; cases j; cases "is_support m"; simp add: c1 processed_Suc processed_0)
        apply (erule disjE, blast)
        apply (rule disjI2, erule conjE, rule conjI, assumption)
        apply linarith
        done
    qed
    then show ?thesis by (rule exI[of ?P "Suc j"])
  qed
  show ?case
  proof (cases "imap_fetch_fault w i")
    case (Some e)
    with Cons.prems have eqs: "r = Some e" "out = emails" by simp_all
    have "?P 0" unfolding eqs using Some by (simp add: processed_0)
    then show ?thesis by (rule exI[of ?P 0])
  next
    case None
    note nf = None
    show ?thesis
    proof (cases "is_support m")
      case False
      with nf Cons.prems have "fetch_loop limit (Suc i) ms ?w1 count emails = (r, w', out)"
        by (simp add: Let_def)
      from step[OF this nf] False show ?thesis by simp
    next
      case True
      note sup = True
      show ?thesis
      proof (cases "imap_flag_fault w i")
        case (Some e)
        with nf sup Cons.prems have eqs: "r = Some e" "out = emails" by (simp_all add: Let_def)
        have "?P 0" unfolding eqs using Some nf sup by (simp add: processed_0)
        then show ?thesis by (rule exI[of ?P 0])
      next
        case None
        note nfl = None
        show ?thesis
        proof (cases "count + 1 \<ge> limit")
          case True
          with nf sup nfl Cons.prems have eqs: "r = None" "out = emails @ [to_dict m]"
            by (simp_all add: Let_def)
          have "?P (Suc 0)" unfolding eqs using True nf sup nfl
            by (simp add: processed_0 processed_Suc)
          then show ?thesis by (rule exI[of ?P "Suc 0"])
        next
          case False
          with nf sup nfl Cons.prems have
            "fetch_loop limit (Suc i) ms ?w1 (count + 1) (emails @ [to_dict m]) = (r, w', out)"
            by (simp add: Let_def flag_seen_idem)
          from step[OF this nf] sup nfl show ?thesis by simp
        qed
      qed
    qed
  qed
qed

lemma fetch_loop_length:
  "fetch_loop limit i ms w count emails = (r, w', out) \<Longrightarrow> count < limit \<Longrightarrow>
   int (length out) \<le> int (length emails) + (limit - count)"
proof (induction ms arbitrary: i w count emails)
  case Nil
  then show ?case by (simp split: option.splits)
next
  case (Cons m ms)
  show ?case
  proof (cases "imap_fetch_fault w i = None \<and> (is_support m \<longrightarrow> imap_flag_fault w i = None)")
    case False
    with Cons.prems show ?thesis by (auto simp: Let_def split: option.splits if_splits)
  next
    case True
    note ok = True
    show ?thesis
    proof (cases "is_support m")
      case False
      with ok Cons.prems have
        "fetch_loop limit (Suc i) ms (w\<lparr>inbox := flag_seen (msg_uid m) (inbox w)\<rparr>) count emails =
           (r, w', out)"
        by (simp add: Let_def)
      from Cons.IH[OF this Cons.prems(2)] show ?thesis .
    next
      case True
      note sup = True
      show ?thesis
      proof (cases "limit \<le> count + 1")
        case True
        with ok sup Cons.prems have "out = emails @ [to_dict m]" by (simp add: Let_def)
        with Cons.prems(2) show ?thesis by simp
      next
        case False
        with ok sup Cons.prems have
          "fetch_loop limit (Suc i) ms (w\<lparr>inbox := flag_seen (msg_uid m) (inbox w)\<rparr>)
             (count + 1) (emails @ [to_dict m]) = (r, w', out)"
          by (simp add: Let_def flag_seen_idem)
        from Cons.IH[OF this] False show ?thesis by simp
      qed
    qed
  qed
qed

lemma fetch_body_char:
  assumes "fetch_body limit w = (r, w1, acc)"
  shows "\<exists>j\<le>length (unread w).
      acc = map to_dict (processed j (unread w)) \<and>
      (\<forall>k<j. imap_fetch_fault w k = None) \<and>
      (\<forall>k<j. is_support (unread w ! k) \<longrightarrow> imap_flag_fault w k = None) \<and>
      (case r of
         Some e \<Rightarrow>
           (imap_login_fault w = Some e \<and> j = 0) \<or> imap_logout_fault w = Some e \<or>
           imap_fetch_fault w j = Some e \<or>
           (j < length (unread w) \<and> is_support (unread w ! j) \<and> imap_flag_fault w j = Some e)
       | None \<Rightarrow> imap_login_fault w = None \<and> imap_logout_fault w = None)"
    (is "\<exists>j. ?P j")
proof (cases "imap_login_fault w")
  case (Some e)
  with assms have eqs: "r = Some e" "acc = []" by (simp_all add: fetch_body_def)
  have "?P 0" unfolding eqs using Some by (simp add: processed_0)
  then show ?thesis by (rule exI[of ?P 0])
next
  case None
  obtain r0 w0 acc0 where loop: "fetch_loop limit 0 (unread w) w 0 [] = (r0, w0, acc0)"
    by (cases "fetch_loop limit 0 (unread w) w 0 []") auto
  from fetch_loop_char[OF loop] obtain j where j:
    "j \<le> length (unread w)"
    "acc0 = map to_dict (processed j (unread w))"
    "\<forall>k<j. imap_fetch_fault w k = None"
    "\<forall>k<j. is_support (unread w ! k) \<longrightarrow> imap_flag_fault w k = None"
    "case r0 of
       Some e \<Rightarrow> imap_fetch_fault w (0 + j) = Some e \<or>
         (imap_fetch_fault w (0 + j) = None \<and> j < length (unread w) \<and> is_support (unread w ! j) \<and>
          imap_flag_fault w (0 + j) = Some e)
     | None \<Rightarrow> (j = length (unread w) \<and> imap_fetch_fault w (0 + j) = None) \<or>
         (0 < j \<and> is_support (unread w ! (j - 1)) \<and> 0 + int (length (processed j (unread w))) \<ge> limit)"
    apply (elim exE conjE)
    subgoal for j by (rule that[of j]) simp_all
    done
  have "w0 = w\<lparr>inbox := inbox w0\<rparr>" by (rule fetch_loop_world[OF loop])
  then have "imap_logout_fault w0 = imap_logout_fault (w\<lparr>inbox := inbox w0\<rparr>)" by simp
  then have lo: "imap_logout_fault w0 = imap_logout_fault w" by simp
  from assms None loop have res: "w1 = w0" "acc = acc0"
    "r = (case imap_logout_fault w of Some e \<Rightarrow> Some e | None \<Rightarrow> r0)"
    by (auto simp: fetch_body_def lo split: option.splits)
  have "?P j"
  proof (intro conjI)
    show "j \<le> length (unread w)" by (rule j(1))
    show "acc = map to_dict (processed j (unread w))" using j(2) res(2) by simp
    show "\<forall>k<j. imap_fetch_fault w k = None" by (rule j(3))
    show "\<forall>k<j. is_support (unread w ! k) \<longrightarrow> imap_flag_fault w k = None" by (rule j(4))
    show "case r of
         Some e \<Rightarrow>
           (imap_login_fault w = Some e \<and> j = 0) \<or> imap_logout_fault w = Some e \<or>
           imap_fetch_fault w j = Some e \<or>
           (j < length (unread w) \<and> is_support (unread w ! j) \<and> imap_flag_fault w j = Some e)
       | None \<Rightarrow> imap_login_fault w = None \<and> imap_logout_fault w = None"
      using j(5) None unfolding res(3)
      by (cases "imap_logout_fault w"; cases r0) (simp_all, blast)
  qed
  then show ?thesis by (rule exI[of ?P j])
qed


lemma fetch_body_length:
  assumes "fetch_body limit w = (r, w1, acc)" and "1 \<le> limit"
  shows "int (length acc) \<le> limit"
proof (cases "imap_login_fault w")
  case (Some e)
  with assms show ?thesis by (simp add: fetch_body_def)
next
  case None
  obtain r0 w0 acc0 where loop: "fetch_loop limit 0 (unread w) w 0 [] = (r0, w0, acc0)"
    by (cases "fetch_loop limit 0 (unread w) w 0 []") auto
  from assms None loop have "acc = acc0" by (auto simp: fetch_body_def split: option.splits)
  moreover from fetch_loop_length[OF loop] assms(2) have "int (length acc0) \<le> limit" by simp
  ultimately show ?thesis by simp
qed

lemma fetch_support_emails_eq:
  "fetch_body limit w = (r, w1, acc) \<Longrightarrow>
   fetch_support_emails limit w =
     (Inr acc, case r of Some e \<Rightarrow> logging_error (''Error fetching emails: '' @ str_of e) w1
               | None \<Rightarrow> w1)"
  by (cases r) (simp_all add: fetch_support_emails_def)

lemma is_support_keyword:
  "is_support m \<longleftrightarrow>
   str_in ''help'' (lower (content_of m)) \<or> str_in ''issue'' (lower (content_of m)) \<or>
   str_in ''problem'' (lower (content_of m))"
  by (simp add: is_support_def support_keywords_def)

lemma to_dict_body: "to_dict m ''body'' = Some (content_of m)"
  by (simp add: to_dict_def)

lemma processed_support: "m \<in> set (processed j ms) \<Longrightarrow> is_support m \<and> m \<in> set ms"
  by (auto simp: processed_def dest: in_set_takeD)

section \<open>The batch and the mailbox after a fetch\<close>

lemma flag_all_member:
  "m \<in> set ms \<Longrightarrow> msg_uid m \<in> set us \<Longrightarrow> m\<lparr>msg_seen := True\<rparr> \<in> set (flag_all us ms)"
  by (force simp: flag_all_def)

lemma unread_subset: "m \<in> set (unread w) \<Longrightarrow> m \<in> set (inbox w)"
  by (simp add: unread_def)

lemma example_unread:
  "unread example_world =
     [\<lparr>msg_uid = ''1'', msg_from = ''ann@example.org'', msg_subject = ''Login'',
       msg_text = ''Please HELP me'', msg_seen = False\<rparr>,
      \<lparr>msg_uid = ''2'', msg_from = ''bob@example.org'', msg_subject = ''Lunch'',
       msg_text = ''See you at noon'', msg_seen = False\<rparr>,
      \<lparr>msg_uid = ''3'', msg_from = ''cy@example.org'', msg_subject = ''An issue with billing'',
       msg_text = [], msg_seen = False\<rparr>]"
  by (simp add: unread_def example_world_def example_inbox_def)

lemma example_support_1:
  "is_support \<lparr>msg_uid = ''1'', msg_from = ''ann@example.org'', msg_subject = ''Login'',
       msg_text = ''Please HELP me'', msg_seen = False\<rparr>"
  by (simp add: is_support_def content_of_def support_keywords_def lower_def lower_char_def
      char_of_eq_iff)

lemma example_support_2:
  "\<not> is_support \<lparr>msg_uid = ''2'', msg_from = ''bob@example.org'', msg_subject = ''Lunch'',
       msg_text = ''See you at noon'', msg_seen = False\<rparr>"
  by (simp add: is_support_def content_of_def support_keywords_def lower_def lower_char_def
      char_of_eq_iff)

lemma example_support_3:
  "is_support \<lparr>msg_uid = ''3'', msg_from = ''cy@example.org'', msg_subject = ''An issue with billing'',
       msg_text = [], msg_seen = False\<rparr>"
  by (simp add: is_support_def content_of_def support_keywords_def lower_def lower_char_def
      char_of_eq_iff)

lemmas example_support = example_support_1 example_support_2 example_support_3



lemma example_fetch_body:
  "fetch_body 5 example_world =
     (None,
      example_world\<lparr>inbox := flag_seen ''3'' (flag_seen ''2'' (flag_seen ''1'' example_inbox))\<rparr>,
      [to_dict (example_inbox ! 0), to_dict (example_inbox ! 2)])"
  unfolding fetch_body_def example_unread
  by (simp add: example_support example_world_def example_inbox_def flag_seen_idem)

text \<open>
  C1. For every limit of at least 1 and every world (mailbox contents and failures of the
  mail server), \<open>fetch_support_emails\<close> returns a list of at most \<open>limit\<close> entries, and
  the lowercased body of every entry contains \<open>help\<close>, \<open>issue\<close> or \<open>problem\<close>.
\<close>

theorem fetch_support_emails_bounded_matching:
  assumes "1 \<le> limit"
  shows "\<exists>out w'. fetch_support_emails limit w = (Inr out, w') \<and>
           int (length out) \<le> limit \<and>
           (\<forall>d\<in>set out. \<exists>b. d ''body'' = Some b \<and>
              (str_in ''help'' (lower b) \<or> str_in ''issue'' (lower b) \<or>
               str_in ''problem'' (lower b)))"
proof -
  obtain r w1 acc where fb: "fetch_body limit w = (r, w1, acc)"
    by (cases "fetch_body limit w") auto
  from fetch_body_char[OF fb] obtain j where acc: "acc = map to_dict (processed j (unread w))"
    by (elim exE conjE)
  have len: "int (length acc) \<le> limit" by (rule fetch_body_length[OF fb assms])
  have "\<exists>b. d ''body'' = Some b \<and>
          (str_in ''help'' (lower b) \<or> str_in ''issue'' (lower b) \<or> str_in ''problem'' (lower b))"
    if "d \<in> set acc" for d
  proof -
    from that acc obtain m where m: "m \<in> set (processed j (unread w))" "d = to_dict m" by auto
    from processed_support[OF m(1)] have "is_support m" by simp
    then show ?thesis unfolding m(2) to_dict_body by (simp add: is_support_keyword)
  qed
  with len fetch_support_emails_eq[OF fb] show ?thesis by blast
qed

theorem fetch_support_emails_bounded_matching_witness:
  "(1::int) \<le> 5 \<and>
   fetch_support_emails 5 example_world =
     (Inr [to_dict (example_inbox ! 0), to_dict (example_inbox ! 2)],
      example_world\<lparr>inbox := flag_seen ''3'' (flag_seen ''2'' (flag_seen ''1'' example_inbox))\<rparr>) \<and>
   (\<exists>out w'. fetch_support_emails 5 example_world = (Inr out, w') \<and>
           int (length out) \<le> 5 \<and>
           (\<forall>d\<in>set out. \<exists>b. d ''body'' = Some b \<and>
              (str_in ''help'' (lower b) \<or> str_in ''issue'' (lower b) \<or>
               str_in ''problem'' (lower b))))"
proof -
  have h: "(1::int) \<le> 5" by simp
  have ev: "fetch_support_emails 5 example_world =
     (Inr [to_dict (example_inbox ! 0), to_dict (example_inbox ! 2)],
      example_world\<lparr>inbox := flag_seen ''3'' (flag_seen ''2'' (flag_seen ''1'' example_inbox))\<rparr>)"
    by (simp add: fetch_support_emails_eq[OF example_fetch_body])
  from h ev fetch_support_emails_bounded_matching[OF h, of example_world] show ?thesis
    by (intro conjI)
qed

text \<open>
  C2. On the example mailbox the call returns the entries of messages 1 and 3, and both
  are read afterwards. Message 2, unread before the call and without any of the keywords,
  is read afterwards as well: the server marked it when the generator of
  \<open>mailbox.fetch\<close> fetched it.
\<close>

theorem fetch_support_emails_marks_unmatched:
  "fetch_support_emails 5 example_world =
     (Inr [to_dict (example_inbox ! 0), to_dict (example_inbox ! 2)],
      example_world\<lparr>inbox := flag_seen ''3'' (flag_seen ''2'' (flag_seen ''1'' example_inbox))\<rparr>) \<and>
   \<not> msg_seen (example_inbox ! 1) \<and> \<not> is_support (example_inbox ! 1) \<and>
   msg_seen (flag_seen ''3'' (flag_seen ''2'' (flag_seen ''1'' example_inbox)) ! 0) \<and>
   msg_seen (flag_seen ''3'' (flag_seen ''2'' (flag_seen ''1'' example_inbox)) ! 1) \<and>
   msg_seen (flag_seen ''3'' (flag_seen ''2'' (flag_seen ''1'' example_inbox)) ! 2)"
proof -
  have "fetch_support_emails 5 example_world =
     (Inr [to_dict (example_inbox ! 0), to_dict (example_inbox ! 2)],
      example_world\<lparr>inbox := flag_seen ''3'' (flag_seen ''2'' (flag_seen ''1'' example_inbox))\<rparr>)"
    by (simp add: fetch_support_emails_eq[OF example_fetch_body])
  moreover have "\<not> is_support (example_inbox ! 1)"
    by (simp add: example_inbox_def example_support)
  ultimately show ?thesis by (simp add: example_inbox_def flag_seen_def)
qed



lemma fetch_loop_first_match:
  "k < length ms \<Longrightarrow> is_support (ms ! k) \<Longrightarrow> \<forall>i<k. \<not> is_support (ms ! i) \<Longrightarrow>
   \<forall>i\<le>k. imap_fetch_fault w (i0 + i) = None \<Longrightarrow> imap_flag_fault w (i0 + k) = None \<Longrightarrow>
   limit \<le> count + 1 \<Longrightarrow>
   fetch_loop limit i0 ms w count emails =
     (None, w\<lparr>inbox := flag_all (map msg_uid (take (Suc k) ms)) (inbox w)\<rparr>,
      emails @ [to_dict (ms ! k)])"
proof (induction k arbitrary: ms i0 w)
  case 0
  then obtain m ms' where ms: "ms = m # ms'" by (cases ms) auto
  with 0 show ?case by (simp add: Let_def flag_seen_idem flag_all_Cons flag_all_Nil)
next
  case (Suc k)
  then obtain m ms' where ms: "ms = m # ms'" by (cases ms) auto
  let ?w1 = "w\<lparr>inbox := flag_seen (msg_uid m) (inbox w)\<rparr>"
  from Suc.prems(3) ms have nm: "\<not> is_support m" by auto
  from Suc.prems(4) have f0: "imap_fetch_fault w i0 = None" by (auto dest: spec[of _ 0])
  have "fetch_loop limit (Suc i0) ms' ?w1 count emails =
     (None, ?w1\<lparr>inbox := flag_all (map msg_uid (take (Suc k) ms')) (inbox ?w1)\<rparr>,
      emails @ [to_dict (ms' ! k)])"
  proof (rule Suc.IH)
    show "k < length ms'" using Suc.prems(1) ms by simp
    show "is_support (ms' ! k)" using Suc.prems(2) ms by simp
    show "\<forall>i<k. \<not> is_support (ms' ! i)"
    proof (intro allI impI)
      fix i assume "i < k"
      then have "Suc i < Suc k" by simp
      with Suc.prems(3) have "\<not> is_support (ms ! Suc i)" by blast
      then show "\<not> is_support (ms' ! i)" by (simp add: ms)
    qed
    show "\<forall>i\<le>k. imap_fetch_fault ?w1 (Suc i0 + i) = None"
    proof (intro allI impI)
      fix i assume "i \<le> k"
      then have "Suc i \<le> Suc k" by simp
      with Suc.prems(4) have "imap_fetch_fault w (i0 + Suc i) = None" by blast
      then show "imap_fetch_fault ?w1 (Suc i0 + i) = None" by simp
    qed
    show "imap_flag_fault ?w1 (Suc i0 + k) = None" using Suc.prems(5) by simp
    show "limit \<le> count + 1" by (rule Suc.prems(6))
  qed
  with nm f0 show ?case by (simp add: ms Let_def flag_all_Cons)
qed

text \<open>
  C10. With a limit of 0 or less, a successful login, and an unread message at position
  \<open>k\<close> that is the first to match the keywords and is reached and flagged without a
  fault, \<open>fetch_support_emails\<close> returns the one-element batch holding that message, so
  the batch is longer than the limit; that message is read afterwards, as is every unread
  message before it, which the generator fetched.
\<close>

theorem fetch_support_emails_nonpositive_limit:
  assumes "limit \<le> 0" and "imap_login_fault w = None"
    and "k < length (unread w)" and "is_support (unread w ! k)"
    and "\<forall>i<k. \<not> is_support (unread w ! i)"
    and "\<forall>i\<le>k. imap_fetch_fault w i = None" and "imap_flag_fault w k = None"
  shows "\<exists>w'. fetch_support_emails limit w = (Inr [to_dict (unread w ! k)], w') \<and>
           inbox w' = flag_all (map msg_uid (take (Suc k) (unread w))) (inbox w) \<and>
           (unread w ! k)\<lparr>msg_seen := True\<rparr> \<in> set (inbox w') \<and>
           limit < int (length [to_dict (unread w ! k)])"
proof -
  let ?m = "unread w ! k"
  let ?ib = "flag_all (map msg_uid (take (Suc k) (unread w))) (inbox w)"
  let ?w1 = "w\<lparr>inbox := ?ib\<rparr>"
  from assms(6) have ff: "\<forall>i\<le>k. imap_fetch_fault w (0 + i) = None" by simp
  from assms(7) have fl: "imap_flag_fault w (0 + k) = None" by simp
  from assms(1) have lim: "limit \<le> 0 + 1" by simp
  have loop: "fetch_loop limit 0 (unread w) w 0 [] = (None, ?w1, [] @ [to_dict ?m])"
    by (rule fetch_loop_first_match[OF assms(3,4,5) ff fl lim])
  let ?r = "case imap_logout_fault w of Some e \<Rightarrow> Some e | None \<Rightarrow> None"
  have fb: "fetch_body limit w = (?r, ?w1, [to_dict ?m])"
    using assms(2) loop by (simp add: fetch_body_def split: option.splits)
  let ?w' = "case ?r of Some e \<Rightarrow> logging_error (''Error fetching emails: '' @ str_of e) ?w1
             | None \<Rightarrow> ?w1"
  have res: "fetch_support_emails limit w = (Inr [to_dict ?m], ?w')"
    by (rule fetch_support_emails_eq[OF fb])
  have inb: "inbox ?w' = ?ib"
    by (cases "imap_logout_fault w") (simp_all add: logging_error_def)
  from assms(3) have mem0: "?m \<in> set (unread w)" by simp
  from assms(3) have "?m \<in> set (take (Suc k) (unread w))"
    by (simp add: in_set_conv_nth) (metis lessI nth_take)
  then have "msg_uid ?m \<in> set (map msg_uid (take (Suc k) (unread w)))" by simp
  from flag_all_member[OF unread_subset[OF mem0] this]
  have mem: "?m\<lparr>msg_seen := True\<rparr> \<in> set (inbox ?w')" unfolding inb .
  from assms(1) have "limit < int (length [to_dict ?m])" by simp
  with res inb mem show ?thesis by blast
qed

lemma later_unread:
  "unread later_world =
     [\<lparr>msg_uid = ''2'', msg_from = ''bob@example.org'', msg_subject = ''Lunch'',
       msg_text = ''See you at noon'', msg_seen = False\<rparr>,
      \<lparr>msg_uid = ''3'', msg_from = ''cy@example.org'', msg_subject = ''An issue with billing'',
       msg_text = [], msg_seen = False\<rparr>]"
  by (simp add: unread_def later_world_def example_world_def example_inbox_def)

theorem fetch_support_emails_nonpositive_limit_witness:
  "(-1::int) \<le> 0 \<and> imap_login_fault later_world = None \<and>
   1 < length (unread later_world) \<and> is_support (unread later_world ! 1) \<and>
   \<not> is_support (unread later_world ! 0) \<and>
   imap_fetch_fault later_world 0 = None \<and> imap_fetch_fault later_world 1 = None \<and>
   imap_flag_fault later_world 1 = None \<and>
   (\<exists>w'. fetch_support_emails (-1) later_world = (Inr [to_dict (example_inbox ! 2)], w') \<and>
         inbox w' = flag_seen ''3'' (flag_seen ''2'' (tl example_inbox)) \<and>
         (-1::int) < int (length [to_dict (example_inbox ! 2)]))"
proof -
  have h1: "(-1::int) \<le> 0" by simp
  have h2: "imap_login_fault later_world = None"
    by (simp add: later_world_def example_world_def)
  have h3: "1 < length (unread later_world)" by (simp add: later_unread)
  have h4: "is_support (unread later_world ! 1)" by (simp add: later_unread example_support)
  have h5': "\<not> is_support (unread later_world ! 0)" by (simp add: later_unread example_support)
  then have h5: "\<forall>i<1. \<not> is_support (unread later_world ! i)" by simp
  have f0: "imap_fetch_fault later_world 0 = None" "imap_fetch_fault later_world 1 = None"
    by (simp_all add: later_world_def example_world_def)
  then have h6: "\<forall>i\<le>1. imap_fetch_fault later_world i = None"
    by (simp add: le_Suc_eq)
  have h7: "imap_flag_fault later_world 1 = None"
    by (simp add: later_world_def example_world_def)
  have u: "unread later_world ! 1 = example_inbox ! 2"
    by (simp add: later_unread example_inbox_def)
  have i: "inbox later_world = tl example_inbox" by (simp add: later_world_def)
  have m: "flag_all (map msg_uid (take (Suc 1) (unread later_world))) (tl example_inbox) =
             flag_seen ''3'' (flag_seen ''2'' (tl example_inbox))"
    by (simp add: later_unread flag_all_Cons flag_all_Nil)
  from fetch_support_emails_nonpositive_limit[OF h1 h2 h3 h4 h5 h6 h7]
  have "\<exists>w'. fetch_support_emails (-1) later_world = (Inr [to_dict (example_inbox ! 2)], w') \<and>
         inbox w' = flag_seen ''3'' (flag_seen ''2'' (tl example_inbox)) \<and>
         (-1::int) < int (length [to_dict (example_inbox ! 2)])"
    unfolding u i m by blast
  with h1 h2 h3 h4 h5' f0 h7 show ?thesis by (intro conjI)
qed

section \<open>The reply generator\<close>

text \<open>
  C4. \<open>generate_email_reply\<close> never raises. When the model call returns a response, the
  tool returns that response stripped of surrounding whitespace; when the model call
  raises, the tool logs the error and returns the fixed fallback text.
\<close>

theorem generate_email_reply_total:
  "(\<exists>reply w'. generate_email_reply generate email_body w = (Inr reply, w')) \<and>
   (\<forall>response. generate (make_prompt email_body) = Inr response \<longrightarrow>
      generate_email_reply generate email_body w = (Inr (strip response), w)) \<and>
   (\<forall>e. generate (make_prompt email_body) = Inl e \<longrightarrow>
      generate_email_reply generate email_body w =
        (Inr ''Thank you for reaching out. We have received your email and will get back to you soon.'',
         w\<lparr>log := log w @ [(ERROR, ''Error generating AI reply: '' @ str_of e)]\<rparr>))"
  by (cases "generate (make_prompt email_body)")
     (simp_all add: generate_email_reply_def logging_error_def)

theorem generate_email_reply_total_witness:
  "generate_email_reply (\<lambda>p. Inr (''  Hello Ann, we are on it. '' @ [CHR 0x0A])) ''Please HELP me'' example_world =
     (Inr ''Hello Ann, we are on it.'', example_world) \<and>
   generate_email_reply (\<lambda>p. Inl (ModelError ''timeout'')) ''Please HELP me'' example_world =
     (Inr ''Thank you for reaching out. We have received your email and will get back to you soon.'',
      example_world\<lparr>log := [(ERROR, ''Error generating AI reply: timeout'')]\<rparr>)"
proof -
  have 1: "generate_email_reply (\<lambda>p. Inr (''  Hello Ann, we are on it. '' @ [CHR 0x0A])) ''Please HELP me'' example_world =
     (Inr (strip (''  Hello Ann, we are on it. '' @ [CHR 0x0A])), example_world)"
    using generate_email_reply_total[of "\<lambda>p. Inr (''  Hello Ann, we are on it. '' @ [CHR 0x0A])" "''Please HELP me''" example_world]
    by simp
  have 2: "generate_email_reply (\<lambda>p. Inl (ModelError ''timeout'')) ''Please HELP me'' example_world =
     (Inr ''Thank you for reaching out. We have received your email and will get back to you soon.'',
      example_world\<lparr>log := log example_world @
        [(ERROR, ''Error generating AI reply: '' @ str_of (ModelError ''timeout''))]\<rparr>)"
    using generate_email_reply_total[of "\<lambda>p. Inl (ModelError ''timeout'')" "''Please HELP me''"
        example_world]
    by simp
  have s: "strip (''  Hello Ann, we are on it. '' @ [CHR 0x0A]) = ''Hello Ann, we are on it.''"
    by (simp add: strip_def is_space_def)
  have l: "log example_world = []" by (simp add: example_world_def)
  from 1 2 show ?thesis unfolding s l by simp
qed

section \<open>The sender\<close>

lemma build_message_eq:
  "build_message email_user recipient subject body =
     Inr (Mime [(''From'', email_user), (''To'', recipient), (''Subject'', subject)]
            (Multipart ''mixed'' [Mime [] (Text body ''plain'' ''utf-8'')]))"
  by (simp add: build_message_def MIMEMultipart_def MIMEText_def set_header_def)

lemma logging_info_fields:
  "outbox (logging_info s w) = outbox w"
  "smtp_quit_fault (logging_info s w) = smtp_quit_fault w"
  by (simp_all add: logging_info_def)

lemma send_body_no_fault:
  assumes "smtp_connect_fault w = None" "smtp_login_fault w = None"
    "as_string (Mime [(''From'', email_user), (''To'', recipient), (''Subject'', subject)]
       (Multipart ''mixed'' [Mime [] (Text body ''plain'' ''utf-8'')])) = Inr data"
    "smtp_sendmail_fault w = None" "smtp_quit_fault w = None"
  shows "send_body as_string email_user recipient subject body w =
     (None, w\<lparr>outbox := outbox w @ [(email_user, recipient, data)],
               log := log w @ [(INFO, ''Email sent to '' @ recipient)]\<rparr>)"
  using assms by (simp add: send_body_def build_message_eq logging_info_def)

lemma send_body_fault:
  assumes "smtp_connect_fault w \<noteq> None \<or> smtp_login_fault w \<noteq> None \<or>
      (\<exists>e. as_string (Mime [(''From'', email_user), (''To'', recipient), (''Subject'', subject)]
         (Multipart ''mixed'' [Mime [] (Text body ''plain'' ''utf-8'')])) = Inl e) \<or>
      smtp_sendmail_fault w \<noteq> None \<or> smtp_quit_fault w \<noteq> None"
  shows "\<exists>e w1. send_body as_string email_user recipient subject body w = (Some e, w1) \<and>
           (smtp_connect_fault w = Some e \<or> smtp_login_fault w = Some e \<or>
            as_string (Mime [(''From'', email_user), (''To'', recipient), (''Subject'', subject)]
              (Multipart ''mixed'' [Mime [] (Text body ''plain'' ''utf-8'')])) = Inl e \<or>
            smtp_sendmail_fault w = Some e \<or> smtp_quit_fault w = Some e)"
  using assms
  by (auto simp: send_body_def build_message_eq logging_info_fields
      split: option.splits sum.splits)

lemma send_body_nothing_sent:
  assumes "smtp_connect_fault w \<noteq> None \<or> smtp_login_fault w \<noteq> None \<or>
      (\<exists>e. as_string (Mime [(''From'', email_user), (''To'', recipient), (''Subject'', subject)]
         (Multipart ''mixed'' [Mime [] (Text body ''plain'' ''utf-8'')])) = Inl e) \<or>
      smtp_sendmail_fault w \<noteq> None"
  shows "outbox (snd (send_body as_string email_user recipient subject body w)) = outbox w"
  using assms
  by (auto simp: send_body_def build_message_eq logging_info_fields
      split: option.splits sum.splits)

lemma send_email_tool_eq:
  "send_body as_string email_user recipient subject body w = (r, w1) \<Longrightarrow>
   send_email_tool as_string email_user recipient subject body w =
     (Inr (), case r of Some e \<Rightarrow> logging_error (''Error sending email: '' @ str_of e) w1
              | None \<Rightarrow> w1)"
  by (cases r) (simp_all add: send_email_tool_def)

text \<open>
  C5. \<open>send_email_tool\<close> never raises to its caller, whatever the serialisation of the
  message and the outbound server do. When the message serialises and no call to the
  server fails, the text is handed over and the delivery is logged. When the connection,
  the login, the serialisation, the transmission or the closing of the session fails,
  the last line of the log is the error line for one of these failures and the call
  still returns normally; unless only the closing failed, nothing is handed over.
\<close>

theorem send_email_tool_never_raises:
  "\<exists>w'. send_email_tool as_string email_user recipient subject body w = (Inr (), w') \<and>
     (\<forall>data.
        smtp_connect_fault w = None \<and> smtp_login_fault w = None \<and>
        as_string (Mime [(''From'', email_user), (''To'', recipient), (''Subject'', subject)]
          (Multipart ''mixed'' [Mime [] (Text body ''plain'' ''utf-8'')])) = Inr data \<and>
        smtp_sendmail_fault w = None \<and> smtp_quit_fault w = None \<longrightarrow>
        log w' = log w @ [(INFO, ''Email sent to '' @ recipient)] \<and>
        outbox w' = outbox w @ [(email_user, recipient, data)]) \<and>
     (smtp_connect_fault w \<noteq> None \<or> smtp_login_fault w \<noteq> None \<or>
      (\<exists>e. as_string (Mime [(''From'', email_user), (''To'', recipient), (''Subject'', subject)]
         (Multipart ''mixed'' [Mime [] (Text body ''plain'' ''utf-8'')])) = Inl e) \<or>
      smtp_sendmail_fault w \<noteq> None \<or> smtp_quit_fault w \<noteq> None \<longrightarrow>
      (\<exists>e. (smtp_connect_fault w = Some e \<or> smtp_login_fault w = Some e \<or>
            as_string (Mime [(''From'', email_user), (''To'', recipient), (''Subject'', subject)]
              (Multipart ''mixed'' [Mime [] (Text body ''plain'' ''utf-8'')])) = Inl e \<or>
            smtp_sendmail_fault w = Some e \<or> smtp_quit_fault w = Some e) \<and>
           log w' \<noteq> [] \<and> last (log w') = (ERROR, ''Error sending email: '' @ str_of e))) \<and>
     (smtp_connect_fault w \<noteq> None \<or> smtp_login_fault w \<noteq> None \<or>
      (\<exists>e. as_string (Mime [(''From'', email_user), (''To'', recipient), (''Subject'', subject)]
         (Multipart ''mixed'' [Mime [] (Text body ''plain'' ''utf-8'')])) = Inl e) \<or>
      smtp_sendmail_fault w \<noteq> None \<longrightarrow>
      outbox w' = outbox w)"
proof -
  let ?msg = "Mime [(''From'', email_user), (''To'', recipient), (''Subject'', subject)]
          (Multipart ''mixed'' [Mime [] (Text body ''plain'' ''utf-8'')])"
  let ?ok = "smtp_connect_fault w = None \<and> smtp_login_fault w = None \<and>
        (\<exists>data. as_string ?msg = Inr data) \<and>
        smtp_sendmail_fault w = None \<and> smtp_quit_fault w = None"
  obtain r w1 where sb: "send_body as_string email_user recipient subject body w = (r, w1)"
    by (cases "send_body as_string email_user recipient subject body w") auto
  let ?w' = "case r of Some e \<Rightarrow> logging_error (''Error sending email: '' @ str_of e) w1
              | None \<Rightarrow> w1"
  have res: "send_email_tool as_string email_user recipient subject body w = (Inr (), ?w')"
    by (rule send_email_tool_eq[OF sb])
  have ob: "outbox ?w' = outbox w1" by (cases r) (simp_all add: logging_error_def)
  have a: "log ?w' = log w @ [(INFO, ''Email sent to '' @ recipient)] \<and>
           outbox ?w' = outbox w @ [(email_user, recipient, data)]"
    if "smtp_connect_fault w = None \<and> smtp_login_fault w = None \<and> as_string ?msg = Inr data \<and>
        smtp_sendmail_fault w = None \<and> smtp_quit_fault w = None" for data
  proof -
    from that have "send_body as_string email_user recipient subject body w =
       (None, w\<lparr>outbox := outbox w @ [(email_user, recipient, data)],
                 log := log w @ [(INFO, ''Email sent to '' @ recipient)]\<rparr>)"
      by (intro send_body_no_fault) simp_all
    with sb have "r = None" "w1 = w\<lparr>outbox := outbox w @ [(email_user, recipient, data)],
                 log := log w @ [(INFO, ''Email sent to '' @ recipient)]\<rparr>"
      by simp_all
    then show ?thesis by simp
  qed
  have b: "\<exists>e. (smtp_connect_fault w = Some e \<or> smtp_login_fault w = Some e \<or>
            as_string ?msg = Inl e \<or>
            smtp_sendmail_fault w = Some e \<or> smtp_quit_fault w = Some e) \<and>
           log ?w' \<noteq> [] \<and> last (log ?w') = (ERROR, ''Error sending email: '' @ str_of e)"
    if f: "smtp_connect_fault w \<noteq> None \<or> smtp_login_fault w \<noteq> None \<or>
      (\<exists>e. as_string ?msg = Inl e) \<or>
      smtp_sendmail_fault w \<noteq> None \<or> smtp_quit_fault w \<noteq> None"
  proof -
    from send_body_fault[where as_string = as_string and email_user = email_user and
        recipient = recipient and subject = subject and body = body and w = w, OF f] sb obtain e where e: "r = Some e"
      "smtp_connect_fault w = Some e \<or> smtp_login_fault w = Some e \<or>
       as_string ?msg = Inl e \<or>
       smtp_sendmail_fault w = Some e \<or> smtp_quit_fault w = Some e"
      by auto
    have "log ?w' \<noteq> [] \<and> last (log ?w') = (ERROR, ''Error sending email: '' @ str_of e)"
      by (simp add: e(1) logging_error_def)
    with e(2) show ?thesis by blast
  qed
  have c: "outbox ?w' = outbox w"
    if f: "smtp_connect_fault w \<noteq> None \<or> smtp_login_fault w \<noteq> None \<or>
      (\<exists>e. as_string ?msg = Inl e) \<or> smtp_sendmail_fault w \<noteq> None"
    using send_body_nothing_sent[where as_string = as_string and email_user = email_user and
        recipient = recipient and subject = subject and body = body and w = w, OF f] sb ob by simp
  show ?thesis
  proof (rule exI[where x = "?w'"], intro conjI allI impI)
    show "send_email_tool as_string email_user recipient subject body w = (Inr (), ?w')"
      by (rule res)
  next
    fix data
    assume "smtp_connect_fault w = None \<and> smtp_login_fault w = None \<and>
        as_string ?msg = Inr data \<and> smtp_sendmail_fault w = None \<and> smtp_quit_fault w = None"
    from a[OF this] show "log ?w' = log w @ [(INFO, ''Email sent to '' @ recipient)]"
      and "outbox ?w' = outbox w @ [(email_user, recipient, data)]"
      by (rule conjunct1, rule conjunct2)
  next
    assume "smtp_connect_fault w \<noteq> None \<or> smtp_login_fault w \<noteq> None \<or>
      (\<exists>e. as_string ?msg = Inl e) \<or>
      smtp_sendmail_fault w \<noteq> None \<or> smtp_quit_fault w \<noteq> None"
    then show "\<exists>e. (smtp_connect_fault w = Some e \<or> smtp_login_fault w = Some e \<or>
            as_string ?msg = Inl e \<or>
            smtp_sendmail_fault w = Some e \<or> smtp_quit_fault w = Some e) \<and>
           log ?w' \<noteq> [] \<and> last (log ?w') = (ERROR, ''Error sending email: '' @ str_of e)"
      by (rule b)
  next
    assume "smtp_connect_fault w \<noteq> None \<or> smtp_login_fault w \<noteq> None \<or>
      (\<exists>e. as_string ?msg = Inl e) \<or> smtp_sendmail_fault w \<noteq> None"
    then show "outbox ?w' = outbox w" by (rule c)
  qed
qed

theorem send_email_tool_never_raises_witness:
  "(\<exists>w'. send_email_tool example_as_string ''me@example.org'' ''ann@example.org''
            ''Re: Login'' ''Hello Ann'' example_world = (Inr (), w') \<and>
         log w' = [(INFO, ''Email sent to ann@example.org'')] \<and>
         outbox w' =
           [(''me@example.org'', ''ann@example.org'',
             ''From: me@example.org'' @ [CHR 0x0A] @ ''To: ann@example.org'' @ [CHR 0x0A] @
             ''Subject: Re: Login'' @ [CHR 0x0A])]) \<and>
   (\<exists>w'. send_email_tool example_as_string ''me@example.org'' ''ann@example.org''
            (''Hi'' @ [CHR 0x0A] @ ''Bcc: eve@example.org'') ''Hello Ann'' example_world =
            (Inr (), w') \<and>
         last (log w') =
           (ERROR, ''Error sending email: header value appears to contain an embedded header'') \<and>
         outbox w' = []) \<and>
   (\<exists>w'. send_email_tool example_as_string ''me@example.org'' ''ann@example.org''
            ''Re: Login'' ''Hello Ann'' rejecting_world = (Inr (), w') \<and>
         last (log w') = (ERROR, ''Error sending email: 535 authentication failed'') \<and>
         outbox w' = [])"
proof -
  have f: "smtp_connect_fault example_world = None" "smtp_login_fault example_world = None"
    "smtp_sendmail_fault example_world = None" "smtp_quit_fault example_world = None"
    "log example_world = []" "outbox example_world = []"
    by (simp_all add: example_world_def)
  have g: "smtp_connect_fault rejecting_world = None"
    "smtp_login_fault rejecting_world = Some (SMTPError ''535 authentication failed'')"
    "smtp_sendmail_fault rejecting_world = None" "smtp_quit_fault rejecting_world = None"
    "outbox rejecting_world = []"
    by (simp_all add: rejecting_world_def example_world_def)
  have s1: "example_as_string
      (Mime [(''From'', ''me@example.org''), (''To'', ''ann@example.org''),
             (''Subject'', ''Re: Login'')]
         (Multipart ''mixed'' [Mime [] (Text ''Hello Ann'' ''plain'' ''utf-8'')])) =
      Inr (''From: me@example.org'' @ [CHR 0x0A] @ ''To: ann@example.org'' @ [CHR 0x0A] @
           ''Subject: Re: Login'' @ [CHR 0x0A])"
    by (simp add: example_as_string_def)
  have s2: "example_as_string
      (Mime [(''From'', ''me@example.org''), (''To'', ''ann@example.org''),
             (''Subject'', ''Hi'' @ [CHR 0x0A] @ ''Bcc: eve@example.org'')]
         (Multipart ''mixed'' [Mime [] (Text ''Hello Ann'' ''plain'' ''utf-8'')])) =
      Inl (MessageError ''header value appears to contain an embedded header'')"
    by (simp add: example_as_string_def)
  from send_email_tool_never_raises[of example_as_string "''me@example.org''"
      "''ann@example.org''" "''Re: Login''" "''Hello Ann''" example_world]
  have 1: "\<exists>w'. send_email_tool example_as_string ''me@example.org'' ''ann@example.org''
            ''Re: Login'' ''Hello Ann'' example_world = (Inr (), w') \<and>
         log w' = [(INFO, ''Email sent to ann@example.org'')] \<and>
         outbox w' =
           [(''me@example.org'', ''ann@example.org'',
             ''From: me@example.org'' @ [CHR 0x0A] @ ''To: ann@example.org'' @ [CHR 0x0A] @
             ''Subject: Re: Login'' @ [CHR 0x0A])]"
    unfolding f s1 by auto
  from send_email_tool_never_raises[of example_as_string "''me@example.org''"
      "''ann@example.org''" "''Hi'' @ [CHR 0x0A] @ ''Bcc: eve@example.org''" "''Hello Ann''"
      example_world]
  have 2: "\<exists>w'. send_email_tool example_as_string ''me@example.org'' ''ann@example.org''
            (''Hi'' @ [CHR 0x0A] @ ''Bcc: eve@example.org'') ''Hello Ann'' example_world =
            (Inr (), w') \<and>
         last (log w') =
           (ERROR, ''Error sending email: header value appears to contain an embedded header'') \<and>
         outbox w' = []"
    unfolding f s2 by auto
  from send_email_tool_never_raises[of example_as_string "''me@example.org''"
      "''ann@example.org''" "''Re: Login''" "''Hello Ann''" rejecting_world]
  have 3: "\<exists>w'. send_email_tool example_as_string ''me@example.org'' ''ann@example.org''
            ''Re: Login'' ''Hello Ann'' rejecting_world = (Inr (), w') \<and>
         last (log w') = (ERROR, ''Error sending email: 535 authentication failed'') \<and>
         outbox w' = []"
    unfolding g s1 by auto
  from 1 2 3 show ?thesis by (intro conjI)
qed

section \<open>The message, the configuration and the poll loop\<close>

text \<open>
  C8, as the claim states it, fails: the message built for a recipient, a subject and a
  body is a multipart container, not a single-part message.
\<close>

theorem build_message_single_part_counterexample:
  "build_message ''me@example.org'' ''ann@example.org'' ''Re: Login'' ''Hello Ann'' =
     Inr (Mime [(''From'', ''me@example.org''), (''To'', ''ann@example.org''),
                (''Subject'', ''Re: Login'')]
            (Multipart ''mixed'' [Mime [] (Text ''Hello Ann'' ''plain'' ''utf-8'')])) \<and>
   \<not> is_single_part
       (Mime [(''From'', ''me@example.org''), (''To'', ''ann@example.org''),
              (''Subject'', ''Re: Login'')]
          (Multipart ''mixed'' [Mime [] (Text ''Hello Ann'' ''plain'' ''utf-8'')]))"
  by (simp add: build_message_def MIMEMultipart_def MIMEText_def set_header_def
      is_single_part_def)

text \<open>
  C8, amended. For every recipient, subject and body, the message built by
  \<open>send_email_tool\<close> is a multipart container of subtype \<open>mixed\<close> with exactly one part,
  a plain-text part in UTF-8 holding the body; its From is the configured sender, its To
  the given recipient and its Subject the given subject.
\<close>

theorem build_message_one_text_part:
  "\<exists>m. build_message email_user recipient subject body = Inr m \<and>
        content m = Multipart ''mixed'' [Mime [] (Text body ''plain'' ''utf-8'')] \<and>
        \<not> is_single_part m \<and>
        get_header ''From'' m = Some email_user \<and>
        get_header ''To'' m = Some recipient \<and>
        get_header ''Subject'' m = Some subject"
  by (simp add: build_message_eq get_header_def is_single_part_def)

lemma startup_never_refuses: "startup env = Inr (load_settings (set_environ env))"
  by (simp add: startup_def check_settings_def load_settings_def set_environ_def truthy_def)

lemma check_settings_refuses_unset:
  "check_settings (load_settings Map.empty) =
     Inl (EnvironmentError
       ''Please set EMAIL_USER, EMAIL_PASS, API key, MODEL_API_BASE, and MODEL_NAME in environment variables.'')"
  by (simp add: check_settings_def load_settings_def truthy_def)

text \<open>
  C9. Started with an empty environment, the module does not raise the startup error:
  the assignments of lines 21 to 25 have put placeholder values into the environment
  before it is read, so the check of line 37 passes.
\<close>

theorem startup_empty_environment:
  "startup Map.empty =
     Inr \<lparr>EMAIL_USER = Some ''YOUR_MAIL'', EMAIL_PASS = Some ''EMAIL_PASSS'',
          MODEL_API_KEY = Some ''ENTER-API -KEY'', API_KEY = None, TOGETHER_API_KEY = None,
          MODEL_API_BASE = Some ''API-BASE'', MODEL_NAME = Some ''LLM-MODEL''\<rparr>"
  by (simp add: startup_never_refuses load_settings_def set_environ_def)





end
